theory Spec2Isabelle
  imports Complex_Main
begin

section \<open>Numeric model and panics\<close>

text \<open>
  The package \<^verbatim>\<open>ho\<close> is a sequential Bayesian optimiser written in Go. Its
  \<^verbatim>\<open>float64\<close> values are modelled by real numbers and the four arithmetic operations
  are exact: rounding, and overflow of an intermediate result, are outside this model,
  and so is a division by zero (the kernel width \<^verbatim>\<open>sigma\<close> is taken non-zero where a
  kernel value matters). Three things of \<^verbatim>\<open>float64\<close> that finite inputs reach and that
  change what the code does are kept: \<^verbatim>\<open>math.Exp\<close> underflows to 0,
  \<^verbatim>\<open>math.Sqrt\<close> of a negative number is NaN, which every comparison rejects (type
  \<open>score\<close> below), and the sum that penalises a failed benchmark is rounded to 53
  bits, which absorbs the smaller summand.

  A Go panic is a value of type \<open>fault\<close>: \<open>Panic msg\<close> is an explicit
  \<^verbatim>\<open>panic(msg)\<close> in the source or in the standard library, the other two are the
  run-time errors that Go itself raises.
\<close>

datatype fault = Panic string | NilPointerDereference | IndexOutOfRange

text \<open>\<^verbatim>\<open>math.MaxFloat64\<close>, the largest finite \<^verbatim>\<open>float64\<close>: \<open>(2 - 2\<^sup>-\<^sup>5\<^sup>2) * 2\<^sup>1\<^sup>0\<^sup>2\<^sup>3\<close>.\<close>

definition MaxFloat64 :: real where
  "MaxFloat64 = (2 ^ 53 - 1) * 2 ^ 971"

text \<open>
  \<^verbatim>\<open>math.Exp\<close>: the library documents that very large arguments overflow to 0 or
  +Inf. Below the constant \<^verbatim>\<open>Underflow\<close> of its \<^verbatim>\<open>exp.go\<close>, where \<open>e\<^sup>x\<close> is less
  than half the smallest positive \<^verbatim>\<open>float64\<close>, the result is 0. The kernel only calls
  it on arguments that are not positive.
\<close>

definition Underflow :: real where
  "Underflow = - 745.13321910194110842"

definition math_Exp :: "real \<Rightarrow> real" where
  "math_Exp x = (if x < Underflow then 0 else exp x)"

text \<open>
  A \<^verbatim>\<open>float64\<close> sum is the exact sum rounded to the nearest number with a significand
  of 53 bits, ties to the even one (for results in the normal range, the only ones that
  the rounded sum of this package reaches): with \<open>2\<^sup>e \<le> |x| < 2\<^sup>e\<^sup>+\<^sup>1\<close> the representable
  numbers around \<open>x\<close> are the multiples of \<open>2\<^sup>e\<^sup>-\<^sup>5\<^sup>2\<close>.
\<close>

definition round_half_even :: "real \<Rightarrow> int" where
  "round_half_even x =
     (let f = \<lfloor>x\<rfloor>
      in if x - of_int f < 1 / 2 then f
         else if 1 / 2 < x - of_int f then f + 1
         else if even f then f else f + 1)"

definition float64_round :: "real \<Rightarrow> real" where
  "float64_round x =
     (if x = 0 then 0
      else let u = 2 powr (of_int \<lfloor>log 2 \<bar>x\<bar>\<rfloor> - 52)
           in of_int (round_half_even (x / u)) * u)"

definition float64_add :: "real \<Rightarrow> real \<Rightarrow> real" where
  "float64_add x y = float64_round (x + y)"

section \<open>The surrogate model (utils.go)\<close>

text \<open>
  \<^verbatim>\<open>type gaussianProcess struct { mu sync.RWMutex; X [][]float64; Y []float64; sigma float64 }\<close>.
  The driver is sequential, so the lock carries no state of its own here.
\<close>

record gaussianProcess =
  X :: "real list list"
  Y :: "real list"
  sigma :: real

definition newGaussianProcess :: gaussianProcess where
  "newGaussianProcess = \<lparr>X = [], Y = [], sigma = 1\<rparr>"

text \<open>
  The loop of \<^verbatim>\<open>RBFKernel\<close>:
  \<^verbatim>\<open>var sum float64; for i := range x1 { diff := x1[i] - x2[i]; sum += diff * diff }\<close>.
\<close>

fun sqdist :: "real \<Rightarrow> real list \<Rightarrow> real list \<Rightarrow> real" where
  "sqdist s (a # x1) (b # x2) = sqdist (s + (a - b) * (a - b)) x1 x2"
| "sqdist s _ _ = s"

definition RBFKernel :: "gaussianProcess \<Rightarrow> real list \<Rightarrow> real list \<Rightarrow> fault + real" where
  "RBFKernel gp x1 x2 =
     (if length x1 \<noteq> length x2 then Inl (Panic ''input vectors must have the same length'')
      else Inr (math_Exp (- sqdist 0 x1 x2 / (2 * sigma gp * sigma gp))))"

text \<open>
  The first loop of \<^verbatim>\<open>Predict\<close>: \<^verbatim>\<open>for i := range gp.X { k[i] = gp.RBFKernel(x, gp.X[i]) }\<close>;
  the first panic of a kernel call ends it.
\<close>

fun kernels :: "gaussianProcess \<Rightarrow> real list \<Rightarrow> real list list \<Rightarrow> fault + real list" where
  "kernels gp x [] = Inr []"
| "kernels gp x (xi # xs) =
     (case RBFKernel gp x xi of
        Inl e \<Rightarrow> Inl e
      | Inr ki \<Rightarrow> (case kernels gp x xs of Inl e \<Rightarrow> Inl e | Inr ks \<Rightarrow> Inr (ki # ks)))"

text \<open>The second loop: \<^verbatim>\<open>for i := range gp.X { sum += k[i] * gp.Y[i] }\<close>.\<close>

fun weighted_sum :: "real \<Rightarrow> real list \<Rightarrow> real list \<Rightarrow> real" where
  "weighted_sum s (ki # k) (yi # y) = weighted_sum (s + ki * yi) k y"
| "weighted_sum s _ _ = s"

text \<open>
  The nested loop:
  \<^verbatim>\<open>for i := range gp.X { for j := range gp.X { variance -= k[i] * k[j] / float64(len(gp.X)) } }\<close>.
\<close>

fun variance_row :: "real \<Rightarrow> real \<Rightarrow> real \<Rightarrow> real list \<Rightarrow> real" where
  "variance_row n ki variance [] = variance"
| "variance_row n ki variance (kj # k) = variance_row n ki (variance - ki * kj / n) k"

fun variance_loop :: "real \<Rightarrow> real list \<Rightarrow> real \<Rightarrow> real list \<Rightarrow> real" where
  "variance_loop n k variance [] = variance"
| "variance_loop n k variance (ki # rest) = variance_loop n k (variance_row n ki variance k) rest"

text \<open>
  \<^verbatim>\<open>Predict\<close> returns the pair (mean, variance). Reading \<^verbatim>\<open>gp.Y[i]\<close> past the
  end of \<^verbatim>\<open>gp.Y\<close> is Go's index-out-of-range panic.
\<close>

definition Predict :: "gaussianProcess \<Rightarrow> real list \<Rightarrow> fault + real \<times> real" where
  "Predict gp x =
     (if length (X gp) = 0 then Inr (0, 1)
      else case kernels gp x (X gp) of
        Inl e \<Rightarrow> Inl e
      | Inr k \<Rightarrow>
          if length (Y gp) < length (X gp) then Inl IndexOutOfRange
          else let n = real (length (X gp));
                   mean = weighted_sum 0 k (Y gp) / n;
                   variance = variance_loop n k 1 k
               in Inr (mean, variance))"

text \<open>\<^verbatim>\<open>Update\<close> appends a copy of the point and the observed value.\<close>

definition Update :: "real list \<Rightarrow> real \<Rightarrow> gaussianProcess \<Rightarrow> gaussianProcess" where
  "Update x y gp = gp\<lparr>X := X gp @ [x], Y := Y gp @ [y]\<rparr>"

definition SetSigma :: "real \<Rightarrow> gaussianProcess \<Rightarrow> gaussianProcess" where
  "SetSigma s gp = gp\<lparr>sigma := s\<rparr>"

definition GetSigma :: "gaussianProcess \<Rightarrow> real" where
  "GetSigma gp = sigma gp"

section \<open>Parameter types and values (types.go)\<close>

text \<open>
  \<^verbatim>\<open>OptimizeHyperparameters[T constraints.Integer | constraints.Float]\<close>: the
  constraint admits every type whose underlying type is one of the thirteen basic
  numeric types. \<open>Basic b\<close> is the predeclared type itself, \<open>Defined b\<close> a defined
  type (\<^verbatim>\<open>type Size int64\<close>) with that underlying type; a type switch tells them
  apart.
\<close>

datatype basic_type =
  TInt | TInt8 | TInt16 | TInt32 | TInt64
  | TUint | TUint8 | TUint16 | TUint32 | TUint64 | TUintptr
  | TFloat32 | TFloat64

datatype elem_type = Basic basic_type | Defined basic_type

fun underlying :: "elem_type \<Rightarrow> basic_type" where
  "underlying (Basic b) = b"
| "underlying (Defined b) = b"

definition is_float :: "elem_type \<Rightarrow> bool" where
  "is_float T = (underlying T = TFloat32 \<or> underlying T = TFloat64)"

text \<open>A value of type \<^verbatim>\<open>T\<close>: an integer for the integer types, a real for the float types.\<close>

datatype num = IntV int | FloatV real

definition zero_value :: "elem_type \<Rightarrow> num" where
  "zero_value T = (if is_float T then FloatV 0 else IntV 0)"

text \<open>Two's complement wrap-around of \<^verbatim>\<open>int64\<close> and \<^verbatim>\<open>int32\<close> arithmetic.\<close>

definition wrap64 :: "int \<Rightarrow> int" where
  "wrap64 i = (i + 2 ^ 63) mod 2 ^ 64 - 2 ^ 63"

definition wrap32 :: "int \<Rightarrow> int" where
  "wrap32 i = (i + 2 ^ 31) mod 2 ^ 32 - 2 ^ 31"

text \<open>Go's conversion of a float to an integer drops the fraction (towards zero).\<close>

definition trunc :: "real \<Rightarrow> int" where
  "trunc r = (if 0 \<le> r then \<lfloor>r\<rfloor> else \<lceil>r\<rceil>)"

text \<open>
  The conversions \<^verbatim>\<open>int64(v)\<close>, \<^verbatim>\<open>float64(v)\<close> and \<^verbatim>\<open>int(v)\<close> of a value of type
  \<^verbatim>\<open>T\<close> (\<^verbatim>\<open>int\<close> has 64 bits), and the conversions \<^verbatim>\<open>T(i)\<close> and \<^verbatim>\<open>T(f)\<close> back
  in the two branches of the type switch, where \<^verbatim>\<open>T\<close> is \<^verbatim>\<open>int\<close>, \<^verbatim>\<open>int32\<close> or
  \<^verbatim>\<open>int64\<close>, respectively \<^verbatim>\<open>float32\<close> or \<^verbatim>\<open>float64\<close>.
\<close>

fun int64_of :: "num \<Rightarrow> int" where
  "int64_of (IntV i) = wrap64 i"
| "int64_of (FloatV r) = wrap64 (trunc r)"

fun float64_of :: "num \<Rightarrow> real" where
  "float64_of (IntV i) = real_of_int i"
| "float64_of (FloatV r) = r"

definition int_of :: "num \<Rightarrow> int" where
  "int_of v = int64_of v"

definition T_of_int64 :: "elem_type \<Rightarrow> int \<Rightarrow> num" where
  "T_of_int64 T i = (if T = Basic TInt32 then IntV (wrap32 i) else IntV i)"

definition T_of_float64 :: "elem_type \<Rightarrow> real \<Rightarrow> num" where
  "T_of_float64 T r = FloatV r"

text \<open>\<^verbatim>\<open>type ParameterRange[T] struct { Min T; Max T }\<close>\<close>

record ParameterRange =
  Min_r :: num
  Max_r :: num

text \<open>
  \<^verbatim>\<open>type BenchmarkFunc[T] func(params ...T) error\<close>. The driver runs it between
  \<^verbatim>\<open>time.Now()\<close> and \<^verbatim>\<open>time.Since(startTime).Nanoseconds()\<close>; the model of one
  timed invocation takes the arguments and the state of the outside world and returns
  whether the error is non-nil, the elapsed nanoseconds and the new state of the world.
\<close>

type_synonym 'w BenchmarkFunc = "num list \<Rightarrow> 'w \<Rightarrow> (bool \<times> int) \<times> 'w"

section \<open>The random source (math/rand)\<close>

text \<open>
  A \<^verbatim>\<open>*rand.Rand\<close> is a generator state with its three methods that the package
  calls. \<^verbatim>\<open>Int63n\<close> panics on an argument that is not positive.
\<close>

record 'g Rand =
  src :: 'g
  gen_Int63n :: "'g \<Rightarrow> int \<Rightarrow> int \<times> 'g"
  gen_Float64 :: "'g \<Rightarrow> real \<times> 'g"
  gen_NormFloat64 :: "'g \<Rightarrow> real \<times> 'g"

definition Int63n :: "'g Rand \<Rightarrow> int \<Rightarrow> fault + int \<times> 'g Rand" where
  "Int63n r n =
     (if n \<le> 0 then Inl (Panic ''invalid argument to Int63n'')
      else case gen_Int63n r (src r) n of (v, s) \<Rightarrow> Inr (v, r\<lparr>src := s\<rparr>))"

definition Float64 :: "'g Rand \<Rightarrow> real \<times> 'g Rand" where
  "Float64 r = (case gen_Float64 r (src r) of (u, s) \<Rightarrow> (u, r\<lparr>src := s\<rparr>))"

definition NormFloat64 :: "'g Rand \<Rightarrow> real \<times> 'g Rand" where
  "NormFloat64 r = (case gen_NormFloat64 r (src r) of (z, s) \<Rightarrow> (z, r\<lparr>src := s\<rparr>))"

text \<open>
  What the library documents of the generator: \<^verbatim>\<open>Int63n(n)\<close> lies in \<open>[0, n)\<close> and
  \<^verbatim>\<open>Float64()\<close> in \<open>[0.0, 1.0)\<close>.
\<close>

definition rand_contract :: "'g Rand \<Rightarrow> bool" where
  "rand_contract r =
     ((\<forall>s n. 0 < n \<longrightarrow> 0 \<le> fst (gen_Int63n r s n) \<and> fst (gen_Int63n r s n) < n) \<and>
      (\<forall>s. 0 \<le> fst (gen_Float64 r s) \<and> fst (gen_Float64 r s) < 1))"

section \<open>Acquisition functions (acquisitionfunction.go)\<close>

text \<open>
  An acquisition score is a \<^verbatim>\<open>float64\<close> that the driver only compares, so its special
  values are kept: \<^verbatim>\<open>math.Sqrt\<close> of a negative variance is NaN, and every comparison
  with NaN is false.
\<close>

datatype score = NaN | NegInf | Fin real | PosInf

fun score_less :: "score \<Rightarrow> score \<Rightarrow> bool" where
  "score_less NaN _ = False"
| "score_less _ NaN = False"
| "score_less NegInf NegInf = False"
| "score_less NegInf _ = True"
| "score_less (Fin a) (Fin b) = (a < b)"
| "score_less (Fin a) PosInf = True"
| "score_less (Fin a) NegInf = False"
| "score_less PosInf _ = False"

record 'g AcquisitionParams =
  Beta :: real
  Xi :: real
  BestSoFar :: real
  RandomState :: "'g Rand option"

text \<open>
  \<^verbatim>\<open>type AcquisitionFunc func(mean, variance float64, params AcquisitionParams) float64\<close>.
  \<^verbatim>\<open>params.RandomState\<close> is a pointer: a call may advance the generator behind it, so
  the model of a call returns the score and the generator afterwards, or the panic.
\<close>

type_synonym 'g AcquisitionFunc =
  "real \<Rightarrow> real \<Rightarrow> 'g AcquisitionParams \<Rightarrow> fault + score \<times> 'g Rand option"

text \<open>\<^verbatim>\<open>return mean - params.Beta*math.Sqrt(variance)\<close>\<close>

definition UCB :: "'g AcquisitionFunc" where
  "UCB mean variance params =
     Inr (if variance < 0 then NaN else Fin (mean - Beta params * sqrt variance),
          RandomState params)"

text \<open>
  \<^verbatim>\<open>return mean + math.Sqrt(variance)*params.RandomState.NormFloat64()\<close>: the method
  reads through its receiver, so a nil \<^verbatim>\<open>RandomState\<close> is the run-time error of a nil
  pointer dereference.
\<close>

definition ThompsonSampling :: "'g AcquisitionFunc" where
  "ThompsonSampling mean variance params =
     (case RandomState params of
        None \<Rightarrow> Inl NilPointerDereference
      | Some r \<Rightarrow>
          (case NormFloat64 r of
             (z, r') \<Rightarrow> Inr (if variance < 0 then NaN else Fin (mean + sqrt variance * z), Some r')))"

section \<open>The optimisation driver (ho.go)\<close>

record ProgressUpdate =
  Phase :: string
  CurrentIteration :: int
  TotalIterations :: int
  CurrentParams :: "int list"
  CurrentBestParams :: "int list"
  CurrentBestTime :: real
  LastExecutionTime :: real

text \<open>
  \<^verbatim>\<open>type OptimizationConfig struct\<close>. \<open>ProgressChan\<close> tells whether the channel is
  non-nil; whether a send on it is taken or dropped depends on its reader, which is not
  part of the package.
\<close>

record 'g OptimizationConfig =
  Iterations :: int
  InitialSamples :: int
  NumCandidates :: int
  AcquisitionFunc :: "'g AcquisitionFunc"
  AcqParams :: "'g AcquisitionParams"
  ProgressChan :: bool

text \<open>
  The local variables of \<^verbatim>\<open>OptimizeHyperparameters\<close> that its closures and loops
  share: the generator \<^verbatim>\<open>rng\<close>, the model \<^verbatim>\<open>gp\<close>, \<^verbatim>\<open>bestParams\<close>,
  \<^verbatim>\<open>bestTime\<close> and the function's own copy of \<^verbatim>\<open>config.AcqParams\<close>. \<open>world\<close>
  is the state of the benchmark and the clock. Two fields only observe the run:
  \<open>calls\<close> lists the arguments of every invocation of the benchmark, \<open>sent\<close> the
  updates offered to the progress channel.
\<close>

record ('g, 'w) run_state =
  rng :: "'g Rand"
  gp :: gaussianProcess
  bestParams :: "num list"
  bestTime :: real
  acqParams :: "'g AcquisitionParams"
  world :: 'w
  calls :: "num list list"
  sent :: "ProgressUpdate list"

text \<open>
  One round of the loop of \<^verbatim>\<open>safeRandomParams\<close>, the type switch on
  \<^verbatim>\<open>any(hyper.Min).(type)\<close>: \<^verbatim>\<open>case int, int32, int64\<close>, then
  \<^verbatim>\<open>case float32, float64\<close>, and no default case, which leaves the zero value that
  \<^verbatim>\<open>make([]T, len(hypers))\<close> has put in \<^verbatim>\<open>params[i]\<close>.
\<close>

definition draw_param :: "elem_type \<Rightarrow> 'g Rand \<Rightarrow> ParameterRange \<Rightarrow> fault + num \<times> 'g Rand" where
  "draw_param T r hyper =
     (if T = Basic TInt \<or> T = Basic TInt32 \<or> T = Basic TInt64 then
        (let lo = int64_of (Min_r hyper); hi = int64_of (Max_r hyper)
         in case Int63n r (wrap64 (hi - lo + 1)) of
              Inl e \<Rightarrow> Inl e
            | Inr (v, r') \<Rightarrow> Inr (T_of_int64 T (wrap64 (lo + v)), r'))
      else if T = Basic TFloat32 \<or> T = Basic TFloat64 then
        (let lo = float64_of (Min_r hyper); hi = float64_of (Max_r hyper)
         in case Float64 r of (u, r') \<Rightarrow> Inr (T_of_float64 T (lo + u * (hi - lo)), r'))
      else Inr (zero_value T, r))"

fun safeRandomParams ::
  "elem_type \<Rightarrow> 'g Rand \<Rightarrow> ParameterRange list \<Rightarrow> fault + num list \<times> 'g Rand" where
  "safeRandomParams T r [] = Inr ([], r)"
| "safeRandomParams T r (hyper # hypers) =
     (case draw_param T r hyper of
        Inl e \<Rightarrow> Inl e
      | Inr (p, r') \<Rightarrow>
          (case safeRandomParams T r' hypers of
             Inl e \<Rightarrow> Inl e
           | Inr (ps, r'') \<Rightarrow> Inr (p # ps, r'')))"

definition paramsToFloat64s :: "num list \<Rightarrow> real list" where
  "paramsToFloat64s params = map float64_of params"

text \<open>Go's \<^verbatim>\<open>copy(dst, src)\<close> overwrites the first \<open>min (len dst) (len src)\<close> elements.\<close>

definition copy_slice :: "'a list \<Rightarrow> 'a list \<Rightarrow> 'a list" where
  "copy_slice dst source = take (length dst) source @ drop (length source) dst"

definition updateBest ::
  "num list \<Rightarrow> real \<Rightarrow> ('g, 'w) run_state \<Rightarrow> ('g, 'w) run_state" where
  "updateBest params executionTime st =
     (if executionTime < bestTime st
      then st\<lparr>bestTime := executionTime, bestParams := copy_slice (bestParams st) params\<rparr>
      else st)"

definition sendProgress ::
  "'g OptimizationConfig \<Rightarrow> string \<Rightarrow> int \<Rightarrow> int \<Rightarrow> num list \<Rightarrow> real \<Rightarrow>
   ('g, 'w) run_state \<Rightarrow> ('g, 'w) run_state" where
  "sendProgress config phase iteration totalIters currentParams execTime st =
     (if ProgressChan config then
        st\<lparr>sent := sent st @
          [\<lparr>Phase = phase, CurrentIteration = iteration, TotalIterations = totalIters,
            CurrentParams = map int_of currentParams,
            CurrentBestParams = map int_of (bestParams st),
            CurrentBestTime = bestTime st, LastExecutionTime = execTime\<rparr>]\<rparr>
      else st)"

text \<open>
  Both phases measure the benchmark with the same lines:
  \<^verbatim>\<open>startTime := time.Now(); err := benchmarkFunc(params...)\<close>,
  \<^verbatim>\<open>executionTime := float64(time.Since(startTime).Nanoseconds())\<close>,
  \<^verbatim>\<open>if err != nil { executionTime = math.MaxFloat64/2 + executionTime }\<close>.
  The sum is the \<^verbatim>\<open>float64\<close> sum: next to \<^verbatim>\<open>math.MaxFloat64/2\<close> the representable
  numbers are \<open>2\<^sup>9\<^sup>7\<^sup>0\<close> apart.
\<close>

definition timed_benchmark ::
  "'w BenchmarkFunc \<Rightarrow> num list \<Rightarrow> ('g, 'w) run_state \<Rightarrow> real \<times> ('g, 'w) run_state" where
  "timed_benchmark benchmarkFunc params st =
     (case benchmarkFunc params (world st) of
        ((err, ns), w) \<Rightarrow>
          (if err then float64_add (MaxFloat64 / 2) (real_of_int ns) else real_of_int ns,
           st\<lparr>world := w, calls := calls st @ [params]\<rparr>))"

text \<open>
  What both phases do with the measured time: \<^verbatim>\<open>gp.Update\<close>, \<^verbatim>\<open>updateBest\<close>,
  \<^verbatim>\<open>sendProgress\<close>.
\<close>

definition record_result ::
  "'g OptimizationConfig \<Rightarrow> string \<Rightarrow> int \<Rightarrow> int \<Rightarrow> num list \<Rightarrow> real \<Rightarrow>
   ('g, 'w) run_state \<Rightarrow> ('g, 'w) run_state" where
  "record_result config phase iteration totalIters params executionTime st =
     sendProgress config phase iteration totalIters params executionTime
       (updateBest params executionTime
         (st\<lparr>gp := Update (paramsToFloat64s params) executionTime (gp st)\<rparr>))"

text \<open>The body of the loop of phase 1, at loop index \<open>i\<close>.\<close>

definition sample_step ::
  "'g OptimizationConfig \<Rightarrow> elem_type \<Rightarrow> 'w BenchmarkFunc \<Rightarrow> ParameterRange list \<Rightarrow> int \<Rightarrow>
   ('g, 'w) run_state \<Rightarrow> fault + ('g, 'w) run_state" where
  "sample_step config T benchmarkFunc hypers i st =
     (case safeRandomParams T (rng st) hypers of
        Inl e \<Rightarrow> Inl e
      | Inr (params, r) \<Rightarrow>
          (case timed_benchmark benchmarkFunc params (st\<lparr>rng := r\<rparr>) of
             (executionTime, st') \<Rightarrow>
               Inr (record_result config ''InitialSampling'' (i + 1) (InitialSamples config)
                      params executionTime st')))"

text \<open>
  The body of the inner loop of phase 2. The loop carries \<^verbatim>\<open>nextParams\<close> (nil at
  first, which the empty list stands for) and \<^verbatim>\<open>bestAcquisition\<close>.
\<close>

definition candidate_step ::
  "'g OptimizationConfig \<Rightarrow> elem_type \<Rightarrow> ParameterRange list \<Rightarrow>
   num list \<times> score \<times> ('g, 'w) run_state \<Rightarrow> fault + num list \<times> score \<times> ('g, 'w) run_state" where
  "candidate_step config T hypers acc =
     (case acc of (nextParams, bestAcquisition, st) \<Rightarrow>
        (case safeRandomParams T (rng st) hypers of
           Inl e \<Rightarrow> Inl e
         | Inr (candidateParams, r) \<Rightarrow>
             (case Predict (gp st) (paramsToFloat64s candidateParams) of
                Inl e \<Rightarrow> Inl e
              | Inr (mean, variance) \<Rightarrow>
                  (case AcquisitionFunc config mean variance (acqParams st) of
                     Inl e \<Rightarrow> Inl e
                   | Inr (acquisition, rs) \<Rightarrow>
                       (let st' = st\<lparr>rng := r, acqParams := (acqParams st)\<lparr>RandomState := rs\<rparr>\<rparr>
                        in if score_less acquisition bestAcquisition
                           then Inr (candidateParams, acquisition, st')
                           else Inr (nextParams, bestAcquisition, st'))))))"

fun candidates_loop ::
  "'g OptimizationConfig \<Rightarrow> elem_type \<Rightarrow> ParameterRange list \<Rightarrow> nat \<Rightarrow>
   num list \<times> score \<times> ('g, 'w) run_state \<Rightarrow> fault + num list \<times> score \<times> ('g, 'w) run_state" where
  "candidates_loop config T hypers 0 acc = Inr acc"
| "candidates_loop config T hypers (Suc j) acc =
     (case candidates_loop config T hypers j acc of
        Inl e \<Rightarrow> Inl e
      | Inr acc' \<Rightarrow> candidate_step config T hypers acc')"

text \<open>The body of the outer loop of phase 2, at loop index \<open>i\<close>.\<close>

definition optimize_step ::
  "'g OptimizationConfig \<Rightarrow> elem_type \<Rightarrow> 'w BenchmarkFunc \<Rightarrow> ParameterRange list \<Rightarrow> int \<Rightarrow>
   ('g, 'w) run_state \<Rightarrow> fault + ('g, 'w) run_state" where
  "optimize_step config T benchmarkFunc hypers i st =
     (case candidates_loop config T hypers (nat (NumCandidates config))
             ([], Fin MaxFloat64, st\<lparr>acqParams := (acqParams st)\<lparr>BestSoFar := bestTime st\<rparr>\<rparr>) of
        Inl e \<Rightarrow> Inl e
      | Inr (nextParams, bestAcquisition, st1) \<Rightarrow>
          (case timed_benchmark benchmarkFunc nextParams st1 of
             (executionTime, st') \<Rightarrow>
               Inr (record_result config ''Optimization'' (i + 1) (Iterations config)
                      nextParams executionTime st')))"

text \<open>
  \<^verbatim>\<open>for i := 0; i < n; i++ { body }\<close>: the rounds \<open>0, \<dots>, n - 1\<close> in order; a panic
  ends the run.
\<close>

fun initial_sampling ::
  "'g OptimizationConfig \<Rightarrow> elem_type \<Rightarrow> 'w BenchmarkFunc \<Rightarrow> ParameterRange list \<Rightarrow> nat \<Rightarrow>
   ('g, 'w) run_state \<Rightarrow> fault + ('g, 'w) run_state" where
  "initial_sampling config T benchmarkFunc hypers 0 st = Inr st"
| "initial_sampling config T benchmarkFunc hypers (Suc n) st =
     (case initial_sampling config T benchmarkFunc hypers n st of
        Inl e \<Rightarrow> Inl e
      | Inr st' \<Rightarrow> sample_step config T benchmarkFunc hypers (int n) st')"

fun optimization ::
  "'g OptimizationConfig \<Rightarrow> elem_type \<Rightarrow> 'w BenchmarkFunc \<Rightarrow> ParameterRange list \<Rightarrow> nat \<Rightarrow>
   ('g, 'w) run_state \<Rightarrow> fault + ('g, 'w) run_state" where
  "optimization config T benchmarkFunc hypers 0 st = Inr st"
| "optimization config T benchmarkFunc hypers (Suc n) st =
     (case optimization config T benchmarkFunc hypers n st of
        Inl e \<Rightarrow> Inl e
      | Inr st' \<Rightarrow> optimize_step config T benchmarkFunc hypers (int n) st')"

text \<open>
  The state before phase 1. The generator is seeded from the clock, so the model takes
  it, and the state of the world, as arguments.
\<close>

definition initial_state ::
  "'g OptimizationConfig \<Rightarrow> elem_type \<Rightarrow> 'g Rand \<Rightarrow> 'w \<Rightarrow> ParameterRange list \<Rightarrow>
   ('g, 'w) run_state" where
  "initial_state config T r w hypers =
     \<lparr>rng = r, gp = newGaussianProcess,
      bestParams = replicate (length hypers) (zero_value T),
      bestTime = MaxFloat64, acqParams = AcqParams config,
      world = w, calls = [], sent = []\<rparr>"

definition run ::
  "'g OptimizationConfig \<Rightarrow> elem_type \<Rightarrow> 'w BenchmarkFunc \<Rightarrow> 'g Rand \<Rightarrow> 'w \<Rightarrow>
   ParameterRange list \<Rightarrow> fault + ('g, 'w) run_state" where
  "run config T benchmarkFunc r w hypers =
     (case initial_sampling config T benchmarkFunc hypers (nat (InitialSamples config))
             (initial_state config T r w hypers) of
        Inl e \<Rightarrow> Inl e
      | Inr st \<Rightarrow> optimization config T benchmarkFunc hypers (nat (Iterations config)) st)"

definition OptimizeHyperparameters ::
  "'g OptimizationConfig \<Rightarrow> elem_type \<Rightarrow> 'w BenchmarkFunc \<Rightarrow> 'g Rand \<Rightarrow> 'w \<Rightarrow>
   ParameterRange list \<Rightarrow> fault + num list" where
  "OptimizeHyperparameters config T benchmarkFunc r w hypers =
     (case run config T benchmarkFunc r w hypers of
        Inl e \<Rightarrow> Inl e
      | Inr st \<Rightarrow> Inr (bestParams st))"

section \<open>Notions of the specification\<close>

text \<open>The element types that the type switch of \<^verbatim>\<open>safeRandomParams\<close> does not list.\<close>

definition unhandled :: "elem_type \<Rightarrow> bool" where
  "unhandled T = (T \<noteq> Basic TInt \<and> T \<noteq> Basic TInt32 \<and> T \<noteq> Basic TInt64 \<and>
                  T \<noteq> Basic TFloat32 \<and> T \<noteq> Basic TFloat64)"

text \<open>
  In the specification's words, an iteration of phase B draws a number of candidate
  points and scores each with the configured acquisition function on the surrogate's
  prediction. \<open>scored_candidates\<close> is that list, in the order drawn.
\<close>

fun scored_candidates ::
  "'g OptimizationConfig \<Rightarrow> elem_type \<Rightarrow> ParameterRange list \<Rightarrow> nat \<Rightarrow> ('g, 'w) run_state \<Rightarrow>
   fault + (num list \<times> score) list \<times> ('g, 'w) run_state" where
  "scored_candidates config T hypers 0 st = Inr ([], st)"
| "scored_candidates config T hypers (Suc j) st =
     (case scored_candidates config T hypers j st of
        Inl e \<Rightarrow> Inl e
      | Inr (cands, st1) \<Rightarrow>
          (case safeRandomParams T (rng st1) hypers of
             Inl e \<Rightarrow> Inl e
           | Inr (c, r) \<Rightarrow>
               (case Predict (gp st1) (paramsToFloat64s c) of
                  Inl e \<Rightarrow> Inl e
                | Inr (mean, variance) \<Rightarrow>
                    (case AcquisitionFunc config mean variance (acqParams st1) of
                       Inl e \<Rightarrow> Inl e
                     | Inr (s, rs) \<Rightarrow>
                         Inr (cands @ [(c, s)],
                              st1\<lparr>rng := r, acqParams := (acqParams st1)\<lparr>RandomState := rs\<rparr>\<rparr>)))))"


text \<open>
  What the inner loop of phase 2 keeps true of \<^verbatim>\<open>nextParams\<close> and
  \<^verbatim>\<open>bestAcquisition\<close> after the candidates \<open>cands\<close>.
\<close>

definition selected :: "(num list \<times> score) list \<Rightarrow> num list \<Rightarrow> score \<Rightarrow> bool" where
  "selected cands np ba =
     (if \<exists>c\<in>set cands. score_less (snd c) (Fin MaxFloat64)
      then \<exists>i<length cands. np = fst (cands ! i) \<and> ba = snd (cands ! i) \<and>
             score_less ba (Fin MaxFloat64) \<and>
             (\<forall>j<length cands. \<not> score_less (snd (cands ! j)) ba) \<and>
             (\<forall>j<i. snd (cands ! j) \<noteq> ba)
      else np = [] \<and> ba = Fin MaxFloat64)"

section \<open>Concrete instances\<close>

text \<open>A model that has seen the point \<open>[0]\<close> twice with cost 1.\<close>

definition gp_twice :: gaussianProcess where
  "gp_twice = Update [0] 1 (Update [0] 1 newGaussianProcess)"

text \<open>
  A generator whose state counts its calls: the \<open>s\<close>-th call of \<^verbatim>\<open>Int63n(n)\<close> returns
  \<open>s mod n\<close>, \<^verbatim>\<open>Float64()\<close> returns one half and \<^verbatim>\<open>NormFloat64()\<close> zero.
\<close>

definition counter_rand :: "nat Rand" where
  "counter_rand =
     \<lparr>src = 0, gen_Int63n = (\<lambda>s n. (int s mod n, Suc s)),
      gen_Float64 = (\<lambda>s. (1 / 2, Suc s)), gen_NormFloat64 = (\<lambda>s. (0, Suc s))\<rparr>"

text \<open>The same with a stride of 50: the \<open>s\<close>-th call of \<^verbatim>\<open>Int63n(n)\<close> returns \<open>50 * s mod n\<close>.\<close>

definition stride_rand :: "nat Rand" where
  "stride_rand =
     \<lparr>src = 0, gen_Int63n = (\<lambda>s n. (50 * int s mod n, Suc s)),
      gen_Float64 = (\<lambda>s. (1 / 2, Suc s)), gen_NormFloat64 = (\<lambda>s. (0, Suc s))\<rparr>"

text \<open>
  Two benchmarks over a world that counts the invocations: one succeeds after 100 ns,
  the other fails after 7 ns.
\<close>

definition steady_bench :: "nat BenchmarkFunc" where
  "steady_bench params w = ((False, 100), Suc w)"

definition failing_bench :: "nat BenchmarkFunc" where
  "failing_bench params w = ((True, 7), Suc w)"

text \<open>The default configuration with explicit counts, and one with a nil \<^verbatim>\<open>RandomState\<close>.\<close>

definition nil_params :: "nat AcquisitionParams" where
  "nil_params = \<lparr>Beta = 2, Xi = 1 / 100, BestSoFar = MaxFloat64, RandomState = None\<rparr>"

definition ucb_config :: "int \<Rightarrow> int \<Rightarrow> int \<Rightarrow> nat OptimizationConfig" where
  "ucb_config iters samples cands =
     \<lparr>Iterations = iters, InitialSamples = samples, NumCandidates = cands,
      AcquisitionFunc = UCB,
      AcqParams = \<lparr>Beta = 2, Xi = 1 / 100, BestSoFar = MaxFloat64,
                   RandomState = Some counter_rand\<rparr>,
      ProgressChan = False\<rparr>"

definition int_range :: "int \<Rightarrow> int \<Rightarrow> ParameterRange" where
  "int_range lo hi = \<lparr>Min_r = IntV lo, Max_r = IntV hi\<rparr>"

definition float_range :: "real \<Rightarrow> real \<Rightarrow> ParameterRange" where
  "float_range lo hi = \<lparr>Min_r = FloatV lo, Max_r = FloatV hi\<rparr>"

section \<open>Properties of the surrogate model\<close>

lemma weighted_sum_eq:
  "weighted_sum s k y = s + (\<Sum>i<min (length k) (length y). k ! i * y ! i)"
proof (induction s k y rule: weighted_sum.induct)
  case (1 s ki k yi y)
  then show ?case by (simp add: sum.lessThan_Suc_shift del: sum.lessThan_Suc)
qed simp_all

lemma variance_row_eq:
  "variance_row n ki v k = v - (\<Sum>j<length k. ki * k ! j / n)"
  by (induction n ki v k rule: variance_row.induct)
     (simp_all add: sum.lessThan_Suc_shift del: sum.lessThan_Suc)

lemma variance_loop_eq:
  "variance_loop n k v rest = v - (\<Sum>i<length rest. \<Sum>j<length k. rest ! i * k ! j / n)"
  by (induction n k v rest rule: variance_loop.induct)
     (simp_all add: sum.lessThan_Suc_shift variance_row_eq del: sum.lessThan_Suc)

lemma kernels_ok:
  "\<forall>xi\<in>set xs. length xi = length x \<Longrightarrow>
   \<exists>k. kernels m x xs = Inr k \<and> length k = length xs \<and>
       (\<forall>i<length xs. RBFKernel m x (xs ! i) = Inr (k ! i))"
proof (induction xs)
  case Nil
  then show ?case by simp
next
  case (Cons xi xs)
  then obtain k where k: "kernels m x xs = Inr k" "length k = length xs"
    "\<forall>i<length xs. RBFKernel m x (xs ! i) = Inr (k ! i)" by auto
  from Cons.prems obtain ki where ki: "RBFKernel m x xi = Inr ki"
    by (auto simp: RBFKernel_def)
  have "\<forall>i<length (xi # xs). RBFKernel m x ((xi # xs) ! i) = Inr ((ki # k) ! i)"
    using k(3) ki by (auto simp: nth_Cons split: nat.splits)
  then show ?case using k ki by auto
qed

text \<open>
  Claim C1. For a model (of positive kernel width) holding \<open>n \<ge> 1\<close> observations and a query point of the
  observations' dimension, \<^verbatim>\<open>Predict\<close> returns the mean \<open>(1/n) * \<Sum>\<^sub>i k\<^sub>i * y\<^sub>i\<close> and
  the variance \<open>1 - (1/n) * \<Sum>\<^sub>i \<Sum>\<^sub>j k\<^sub>i * k\<^sub>j\<close>, where \<open>k\<^sub>i\<close> is the value of
  \<^verbatim>\<open>RBFKernel(x, x\<^sub>i)\<close>. The variance is returned as computed: nothing clamps it, and
  the instance after the theorem returns the variance \<open>-1\<close>.
\<close>

theorem Predict_formula:
  assumes "X m \<noteq> []"
    and "length (Y m) = length (X m)"
    and "\<forall>xi\<in>set (X m). length xi = length x"
    and "0 < sigma m"
  shows "\<exists>k. length k = length (X m) \<and>
           (\<forall>i<length (X m). RBFKernel m x (X m ! i) = Inr (k ! i)) \<and>
           Predict m x =
             Inr ((1 / real (length (X m))) * (\<Sum>i<length (X m). k ! i * Y m ! i),
                  1 - (1 / real (length (X m))) * (\<Sum>i<length (X m). \<Sum>j<length (X m). k ! i * k ! j))"
proof -
  from kernels_ok [OF assms(3)] obtain k where k: "kernels m x (X m) = Inr k"
    "length k = length (X m)" "\<forall>i<length (X m). RBFKernel m x (X m ! i) = Inr (k ! i)"
    by blast
  let ?n = "length (X m)"
  have m: "weighted_sum 0 k (Y m) / real ?n = (1 / real ?n) * (\<Sum>i<?n. k ! i * Y m ! i)"
    using k(2) assms(2) by (simp add: weighted_sum_eq)
  have v: "variance_loop (real ?n) k 1 k = 1 - (1 / real ?n) * (\<Sum>i<?n. \<Sum>j<?n. k ! i * k ! j)"
    using k(2) by (simp add: variance_loop_eq sum_divide_distrib)
  have "Predict m x = Inr (weighted_sum 0 k (Y m) / real ?n, variance_loop (real ?n) k 1 k)"
    using assms(1,2) k(1) by (simp add: Predict_def Let_def)
  then show ?thesis using k(2,3) m v by auto
qed

theorem Predict_formula_witness:
  "Predict gp_twice [0] = Inr (1, - 1)"
proof -
  have a: "X gp_twice \<noteq> []" "length (Y gp_twice) = length (X gp_twice)"
     "\<forall>xi\<in>set (X gp_twice). length xi = length [0::real]" "0 < sigma gp_twice"
    by (simp_all add: gp_twice_def Update_def newGaussianProcess_def)
  have n: "length (X gp_twice) = 2" by (simp add: gp_twice_def Update_def newGaussianProcess_def)
  from Predict_formula [OF a] obtain k where k: "length k = length (X gp_twice)"
    "\<forall>i<length (X gp_twice). RBFKernel gp_twice [0] (X gp_twice ! i) = Inr (k ! i)"
    "Predict gp_twice [0] = Inr ((1 / real (length (X gp_twice))) * (\<Sum>i<length (X gp_twice). k ! i * Y gp_twice ! i),
                  1 - (1 / real (length (X gp_twice))) * (\<Sum>i<length (X gp_twice). \<Sum>j<length (X gp_twice). k ! i * k ! j))"
    by blast
  have "RBFKernel gp_twice [0] (X gp_twice ! 0) = Inr (k ! 0)" using k(2) n by simp
  then have k0: "k ! 0 = 1"
    by (simp add: gp_twice_def Update_def newGaussianProcess_def RBFKernel_def math_Exp_def
        Underflow_def)
  have "RBFKernel gp_twice [0] (X gp_twice ! 1) = Inr (k ! 1)" using k(2) n by simp
  then have k1: "k ! 1 = 1"
    by (simp add: gp_twice_def Update_def newGaussianProcess_def RBFKernel_def math_Exp_def
        Underflow_def)
  show ?thesis using k(3) k0 k1 unfolding n
    by (simp add: lessThan_Suc numeral_2_eq_2 gp_twice_def Update_def newGaussianProcess_def)
qed

text \<open>
  Claim C2. On a model with no recorded observation, \<^verbatim>\<open>Predict\<close> returns exactly
  the mean 0 and the variance 1, whatever the query point.
\<close>

theorem Predict_empty: "X m = [] \<Longrightarrow> Predict m x = Inr (0, 1)"
  by (simp add: Predict_def)

theorem Predict_empty_witness: "Predict newGaussianProcess [3, 4] = Inr (0, 1)"
  using Predict_empty [of newGaussianProcess "[3, 4]"] by (simp add: newGaussianProcess_def)

subsection \<open>The kernel\<close>







section \<open>Properties of the driver\<close>

lemma timed_benchmark_frame:
  assumes "timed_benchmark benchmarkFunc params st = (t, st')"
  shows "gp st' = gp st" "bestTime st' = bestTime st" "bestParams st' = bestParams st"
    "rng st' = rng st" "acqParams st' = acqParams st" "sent st' = sent st"
    "calls st' = calls st @ [params]"
  using assms by (auto simp: timed_benchmark_def split: prod.splits)

lemma timed_benchmark_cost:
  assumes "benchmarkFunc params (world st) = ((err, ns), w)"
  shows "fst (timed_benchmark benchmarkFunc params st) =
           (if err then float64_add (MaxFloat64 / 2) (real_of_int ns) else real_of_int ns)"
    "world (snd (timed_benchmark benchmarkFunc params st)) = w"
  using assms by (simp_all add: timed_benchmark_def)

lemma length_copy_slice: "length (copy_slice dst source) = length dst"
  by (simp add: copy_slice_def)

lemma record_result_facts:
  "Y (gp (record_result config phase it tot params t st)) = Y (gp st) @ [t]"
  "X (gp (record_result config phase it tot params t st)) = X (gp st) @ [paramsToFloat64s params]"
  "bestTime (record_result config phase it tot params t st) = min (bestTime st) t"
  "length (bestParams (record_result config phase it tot params t st)) = length (bestParams st)"
  "calls (record_result config phase it tot params t st) = calls st"
  "world (record_result config phase it tot params t st) = world st"
  "rng (record_result config phase it tot params t st) = rng st"
  by (auto simp: record_result_def sendProgress_def updateBest_def Update_def length_copy_slice)

lemma record_result_bestParams:
  "bestParams (record_result config phase it tot params t st) \<noteq> bestParams st \<Longrightarrow> t < bestTime st"
  by (auto simp: record_result_def sendProgress_def updateBest_def split: if_splits)

lemma candidate_step_frame:
  assumes "candidate_step config T hypers (np, ba, st) = Inr (np', ba', st')"
  shows "gp st' = gp st" "bestTime st' = bestTime st" "bestParams st' = bestParams st"
    "world st' = world st" "calls st' = calls st" "sent st' = sent st"
  using assms
  by (auto simp: candidate_step_def Let_def split: sum.splits prod.splits if_splits)

lemma candidates_loop_frame:
  assumes "candidates_loop config T hypers j (np, ba, st) = Inr (np', ba', st')"
  shows "gp st' = gp st \<and> bestTime st' = bestTime st \<and> bestParams st' = bestParams st \<and>
    world st' = world st \<and> calls st' = calls st \<and> sent st' = sent st"
  using assms
proof (induction j arbitrary: np' ba' st')
  case 0
  then show ?case by simp
next
  case (Suc j)
  from Suc.prems obtain np1 ba1 st1 where
    l: "candidates_loop config T hypers j (np, ba, st) = Inr (np1, ba1, st1)"
    and s: "candidate_step config T hypers (np1, ba1, st1) = Inr (np', ba', st')"
    by (auto split: sum.splits)
  show ?case using Suc.IH [OF l] candidate_step_frame [OF s] by simp
qed


lemma sample_step_Inr:
  assumes "sample_step config T benchmarkFunc hypers i st = Inr st'"
  obtains params r t st1 where
    "safeRandomParams T (rng st) hypers = Inr (params, r)"
    "timed_benchmark benchmarkFunc params (st\<lparr>rng := r\<rparr>) = (t, st1)"
    "st' = record_result config ''InitialSampling'' (i + 1) (InitialSamples config) params t st1"
  using assms by (auto simp: sample_step_def split: sum.splits prod.splits)

lemma optimize_step_Inr:
  assumes "optimize_step config T benchmarkFunc hypers i st = Inr st'"
  obtains nextParams ba st1 t st2 where
    "candidates_loop config T hypers (nat (NumCandidates config))
       ([], Fin MaxFloat64, st\<lparr>acqParams := (acqParams st)\<lparr>BestSoFar := bestTime st\<rparr>\<rparr>) =
     Inr (nextParams, ba, st1)"
    "timed_benchmark benchmarkFunc nextParams st1 = (t, st2)"
    "st' = record_result config ''Optimization'' (i + 1) (Iterations config) nextParams t st2"
  using assms by (auto simp: optimize_step_def split: sum.splits prod.splits)

text \<open>
  Claim C6. After every evaluation, in either phase, the stored best cost is the minimum
  of its previous value and the cost just recorded, so it never increases, and the best
  parameters change only when the new cost is strictly lower.
\<close>

theorem best_cost_non_increasing:
  assumes "sample_step config T benchmarkFunc hypers i st = Inr st' \<or>
           optimize_step config T benchmarkFunc hypers i st = Inr st'"
  shows "bestTime st' = min (bestTime st) (last (Y (gp st'))) \<and>
         bestTime st' \<le> bestTime st \<and>
         (bestParams st' \<noteq> bestParams st \<longrightarrow> last (Y (gp st')) < bestTime st)"
  using assms
proof
  assume "sample_step config T benchmarkFunc hypers i st = Inr st'"
  then obtain params r t st1 where
    b: "timed_benchmark benchmarkFunc params (st\<lparr>rng := r\<rparr>) = (t, st1)"
    and r: "st' = record_result config ''InitialSampling'' (i + 1) (InitialSamples config) params t st1"
    by (rule sample_step_Inr)
  have "bestTime st1 = bestTime st" "bestParams st1 = bestParams st"
    using timed_benchmark_frame [OF b] by simp_all
  then show ?thesis
    using record_result_facts(1,3) [of config "''InitialSampling''" "i + 1" "InitialSamples config" params t st1]
      record_result_bestParams [of config "''InitialSampling''" "i + 1" "InitialSamples config" params t st1]
    unfolding r by auto
next
  assume "optimize_step config T benchmarkFunc hypers i st = Inr st'"
  then obtain nextParams ba st1 t st2 where
    c: "candidates_loop config T hypers (nat (NumCandidates config))
       ([], Fin MaxFloat64, st\<lparr>acqParams := (acqParams st)\<lparr>BestSoFar := bestTime st\<rparr>\<rparr>) =
     Inr (nextParams, ba, st1)"
    and b: "timed_benchmark benchmarkFunc nextParams st1 = (t, st2)"
    and r: "st' = record_result config ''Optimization'' (i + 1) (Iterations config) nextParams t st2"
    by (rule optimize_step_Inr)
  have "bestTime st2 = bestTime st" "bestParams st2 = bestParams st"
    using timed_benchmark_frame [OF b] candidates_loop_frame [OF c] by simp_all
  then show ?thesis
    using record_result_facts(1,3) [of config "''Optimization''" "i + 1" "Iterations config" nextParams t st2]
      record_result_bestParams [of config "''Optimization''" "i + 1" "Iterations config" nextParams t st2]
    unfolding r by auto
qed

text \<open>
  Hence the best cost only decreases along each loop, and over a whole run it ends at or
  below its initial value \<^verbatim>\<open>math.MaxFloat64\<close>.
\<close>

lemma sample_step_bestTime:
  assumes "sample_step config T benchmarkFunc hypers i st = Inr st'"
  shows "bestTime st' \<le> bestTime st"
proof -
  from assms obtain params r t st1 where
    b: "timed_benchmark benchmarkFunc params (st\<lparr>rng := r\<rparr>) = (t, st1)"
    and r: "st' = record_result config ''InitialSampling'' (i + 1) (InitialSamples config) params t st1"
    by (rule sample_step_Inr)
  show ?thesis unfolding r using timed_benchmark_frame(2) [OF b]
    by (simp add: record_result_facts(3))
qed

lemma optimize_step_bestTime:
  assumes "optimize_step config T benchmarkFunc hypers i st = Inr st'"
  shows "bestTime st' \<le> bestTime st"
proof -
  from assms obtain nextParams ba st1 t st2 where
    c: "candidates_loop config T hypers (nat (NumCandidates config))
       ([], Fin MaxFloat64, st\<lparr>acqParams := (acqParams st)\<lparr>BestSoFar := bestTime st\<rparr>\<rparr>) =
     Inr (nextParams, ba, st1)"
    and b: "timed_benchmark benchmarkFunc nextParams st1 = (t, st2)"
    and r: "st' = record_result config ''Optimization'' (i + 1) (Iterations config) nextParams t st2"
    by (rule optimize_step_Inr)
  show ?thesis unfolding r using timed_benchmark_frame(2) [OF b] candidates_loop_frame [OF c]
    by (simp add: record_result_facts(3))
qed

lemma initial_sampling_bestTime:
  "initial_sampling config T benchmarkFunc hypers n st = Inr st' \<Longrightarrow> bestTime st' \<le> bestTime st"
proof (induction n arbitrary: st')
  case 0
  then show ?case by simp
next
  case (Suc n)
  then obtain st1 where a: "initial_sampling config T benchmarkFunc hypers n st = Inr st1"
    and b: "sample_step config T benchmarkFunc hypers (int n) st1 = Inr st'"
    by (auto split: sum.splits)
  show ?case using Suc.IH [OF a] sample_step_bestTime [OF b] by simp
qed

lemma optimization_bestTime:
  "optimization config T benchmarkFunc hypers n st = Inr st' \<Longrightarrow> bestTime st' \<le> bestTime st"
proof (induction n arbitrary: st')
  case 0
  then show ?case by simp
next
  case (Suc n)
  then obtain st1 where a: "optimization config T benchmarkFunc hypers n st = Inr st1"
    and b: "optimize_step config T benchmarkFunc hypers (int n) st1 = Inr st'"
    by (auto split: sum.splits)
  show ?case using Suc.IH [OF a] optimize_step_bestTime [OF b] by simp
qed

lemma initial_sampling_prefix_bestTime:
  "initial_sampling config T benchmarkFunc hypers (k + n) st = Inr st' \<Longrightarrow>
   \<exists>st1. initial_sampling config T benchmarkFunc hypers k st = Inr st1 \<and> bestTime st' \<le> bestTime st1"
proof (induction n arbitrary: st')
  case 0
  then show ?case by simp
next
  case (Suc n)
  then obtain st2 where a: "initial_sampling config T benchmarkFunc hypers (k + n) st = Inr st2"
    and b: "sample_step config T benchmarkFunc hypers (int (k + n)) st2 = Inr st'"
    by (auto split: sum.splits)
  from Suc.IH [OF a] obtain st1 where
    "initial_sampling config T benchmarkFunc hypers k st = Inr st1" "bestTime st2 \<le> bestTime st1"
    by blast
  then show ?case using sample_step_bestTime [OF b] by auto
qed

lemma run_bestTime:
  assumes "run config T benchmarkFunc r w hypers = Inr st"
  shows "bestTime st \<le> MaxFloat64"
proof -
  from assms obtain st1 where
    a: "initial_sampling config T benchmarkFunc hypers (nat (InitialSamples config))
          (initial_state config T r w hypers) = Inr st1"
    and b: "optimization config T benchmarkFunc hypers (nat (Iterations config)) st1 = Inr st"
    by (auto simp: run_def split: sum.splits)
  have "bestTime (initial_state config T r w hypers) = MaxFloat64"
    by (simp add: initial_state_def)
  then show ?thesis
    using initial_sampling_bestTime [OF a] optimization_bestTime [OF b] by simp
qed

lemma sample_step_length:
  assumes "sample_step config T benchmarkFunc hypers i st = Inr st'"
  shows "length (bestParams st') = length (bestParams st)"
proof -
  from assms obtain params r t st1 where
    b: "timed_benchmark benchmarkFunc params (st\<lparr>rng := r\<rparr>) = (t, st1)"
    and r: "st' = record_result config ''InitialSampling'' (i + 1) (InitialSamples config) params t st1"
    by (rule sample_step_Inr)
  show ?thesis unfolding r using timed_benchmark_frame(3) [OF b]
    by (simp add: record_result_facts(4))
qed

lemma optimize_step_length:
  assumes "optimize_step config T benchmarkFunc hypers i st = Inr st'"
  shows "length (bestParams st') = length (bestParams st)"
proof -
  from assms obtain nextParams ba st1 t st2 where
    c: "candidates_loop config T hypers (nat (NumCandidates config))
       ([], Fin MaxFloat64, st\<lparr>acqParams := (acqParams st)\<lparr>BestSoFar := bestTime st\<rparr>\<rparr>) =
     Inr (nextParams, ba, st1)"
    and b: "timed_benchmark benchmarkFunc nextParams st1 = (t, st2)"
    and r: "st' = record_result config ''Optimization'' (i + 1) (Iterations config) nextParams t st2"
    by (rule optimize_step_Inr)
  show ?thesis unfolding r using timed_benchmark_frame(3) [OF b] candidates_loop_frame [OF c]
    by (simp add: record_result_facts(4))
qed

lemma initial_sampling_length:
  "initial_sampling config T benchmarkFunc hypers n st = Inr st' \<Longrightarrow>
   length (bestParams st') = length (bestParams st)"
proof (induction n arbitrary: st')
  case 0
  then show ?case by simp
next
  case (Suc n)
  then obtain st1 where "initial_sampling config T benchmarkFunc hypers n st = Inr st1"
    "sample_step config T benchmarkFunc hypers (int n) st1 = Inr st'"
    by (auto split: sum.splits)
  then show ?case using Suc.IH sample_step_length by metis
qed

lemma optimization_length:
  "optimization config T benchmarkFunc hypers n st = Inr st' \<Longrightarrow>
   length (bestParams st') = length (bestParams st)"
proof (induction n arbitrary: st')
  case 0
  then show ?case by simp
next
  case (Suc n)
  then obtain st1 where "optimization config T benchmarkFunc hypers n st = Inr st1"
    "optimize_step config T benchmarkFunc hypers (int n) st1 = Inr st'"
    by (auto split: sum.splits)
  then show ?case using Suc.IH optimize_step_length by metis
qed

text \<open>
  Claim C7. The vector that \<^verbatim>\<open>OptimizeHyperparameters\<close> returns has one entry per
  declared range, whatever the counts of the configuration and the outcomes of the
  benchmark.
\<close>

theorem returned_length:
  assumes "OptimizeHyperparameters config T benchmarkFunc r w hypers = Inr best"
  shows "length best = length hypers"
proof -
  from assms obtain st1 st2 where
    a: "initial_sampling config T benchmarkFunc hypers (nat (InitialSamples config))
          (initial_state config T r w hypers) = Inr st1"
    and b: "optimization config T benchmarkFunc hypers (nat (Iterations config)) st1 = Inr st2"
    and c: "best = bestParams st2"
    by (auto simp: OptimizeHyperparameters_def run_def split: sum.splits)
  have "length (bestParams (initial_state config T r w hypers)) = length hypers"
    by (simp add: initial_state_def)
  then show ?thesis
    using initial_sampling_length [OF a] optimization_length [OF b] c by simp
qed


subsection \<open>Evaluating concrete runs\<close>

lemmas instance_defs =
  counter_rand_def stride_rand_def steady_bench_def failing_bench_def ucb_config_def int_range_def
  float_range_def initial_state_def newGaussianProcess_def nil_params_def

lemmas step_defs =
  sample_step_def optimize_step_def candidate_step_def timed_benchmark_def record_result_def
  sendProgress_def updateBest_def Update_def copy_slice_def paramsToFloat64s_def
  draw_param_def Int63n_def Float64_def NormFloat64_def T_of_int64_def T_of_float64_def
  wrap64_def wrap32_def zero_value_def is_float_def Predict_def UCB_def RBFKernel_def
  math_Exp_def Underflow_def

lemma MaxFloat64_pos: "0 < MaxFloat64"
  by (simp add: MaxFloat64_def)

lemma below_MaxFloat64: "x \<le> 2 ^ 64 \<Longrightarrow> x < MaxFloat64"
proof -
  have "(2::real) ^ 64 < 2 ^ 971" by (rule power_strict_increasing) simp_all
  also have "\<dots> \<le> (2 ^ 53 - 1) * 2 ^ 971" by simp
  finally show "x \<le> 2 ^ 64 \<Longrightarrow> x < MaxFloat64" by (simp add: MaxFloat64_def)
qed

theorem best_cost_non_increasing_witness:
  "(\<exists>st'. sample_step (ucb_config 1 1 1) (Basic TInt) steady_bench [int_range 1 100] 0
            (initial_state (ucb_config 1 1 1) (Basic TInt) counter_rand 0 [int_range 1 100]) = Inr st' \<and>
          bestTime st' = 100 \<and> bestTime st' \<le> MaxFloat64) \<and>
   (\<exists>st'. optimize_step (ucb_config 1 1 1) (Basic TInt) steady_bench [int_range 1 100] 0
            (initial_state (ucb_config 1 1 1) (Basic TInt) counter_rand 0 [int_range 1 100]) = Inr st' \<and>
          bestTime st' = 100 \<and> bestTime st' \<le> MaxFloat64)"
proof -
  let ?c = "ucb_config 1 1 1"
  let ?st = "initial_state ?c (Basic TInt) counter_rand (0::nat) [int_range 1 100]"
  have m: "(- 2::real) < MaxFloat64" by (rule below_MaxFloat64) simp
  have h: "(100::real) < MaxFloat64" by (rule below_MaxFloat64) simp
  have b: "bestTime ?st = MaxFloat64" by (simp add: initial_state_def)
  obtain st1 where s: "sample_step ?c (Basic TInt) steady_bench [int_range 1 100] 0 ?st = Inr st1"
    by (simp add: step_defs instance_defs)
  have y1: "last (Y (gp st1)) = 100"
    using s by (auto simp add: step_defs instance_defs)
  obtain st2 where o: "optimize_step ?c (Basic TInt) steady_bench [int_range 1 100] 0 ?st = Inr st2"
    using m by (simp add: step_defs instance_defs)
  have y2: "last (Y (gp st2)) = 100"
    using o m by (auto simp add: step_defs instance_defs)
  have "bestTime st1 = 100 \<and> bestTime st1 \<le> MaxFloat64"
    using best_cost_non_increasing [OF disjI1, OF s] y1 b h by auto
  moreover have "bestTime st2 = 100 \<and> bestTime st2 \<le> MaxFloat64"
    using best_cost_non_increasing [OF disjI2, OF o] y2 b h by auto
  ultimately show ?thesis using s o by blast
qed

theorem returned_length_witness:
  "\<exists>best. OptimizeHyperparameters (ucb_config 1 1 2) (Basic TInt) steady_bench counter_rand 0
            [int_range 1 100, int_range 1 3] = Inr best \<and> length best = 2"
proof -
  have h: "(100::real) < MaxFloat64" by (rule below_MaxFloat64) simp
  obtain best where b: "OptimizeHyperparameters (ucb_config 1 1 2) (Basic TInt) steady_bench counter_rand 0
            [int_range 1 100, int_range 1 3] = Inr best"
    using h by (auto simp add: OptimizeHyperparameters_def run_def step_defs instance_defs
        numeral_2_eq_2 Let_def split: if_splits)
  show ?thesis using returned_length [OF b] b by simp
qed

subsection \<open>The penalty of a failed benchmark\<close>

lemma round_half_even_near:
  assumes "\<bar>d\<bar> < 1 / 2"
  shows "round_half_even (of_int n + d) = n"
proof (cases "0 \<le> d")
  case True
  then have "\<lfloor>of_int n + d\<rfloor> = n" using assms by (simp add: floor_unique)
  then show ?thesis using assms True by (simp add: round_half_even_def Let_def)
next
  case False
  then have f: "\<lfloor>of_int n + d\<rfloor> = n - 1" using assms by (intro floor_unique) simp_all
  show ?thesis using assms False unfolding round_half_even_def Let_def f by simp
qed

lemma float64_round_binade:
  assumes "2 ^ 1022 \<le> x" and "x < 2 ^ 1023"
  shows "float64_round x = of_int (round_half_even (x / 2 ^ 970)) * 2 ^ 970"
proof -
  have pos: "0 < x" using assms(1) by (rule less_le_trans [rotated]) simp
  have "(2::real) powr of_int 1022 \<le> x \<and> x < 2 powr of_int (1022 + 1)"
    using assms by (simp add: powr_realpow)
  then have "\<lfloor>log 2 x\<rfloor> = 1022"
    using pos by (subst floor_log_eq_powr_iff) simp_all
  then have "\<lfloor>log 2 \<bar>x\<bar>\<rfloor> = 1022" using pos by simp
  moreover have "(2::real) powr (of_int 1022 - 52) = 2 ^ 970"
    by (simp add: powr_realpow [symmetric])
  ultimately show ?thesis using pos by (simp add: float64_round_def Let_def)
qed

text \<open>
  Next to \<^verbatim>\<open>math.MaxFloat64/2\<close> the representable numbers are \<open>2\<^sup>9\<^sup>7\<^sup>0\<close> apart, so the sum
  with anything smaller than half of that is \<^verbatim>\<open>math.MaxFloat64/2\<close> again.
\<close>

lemma penalty_absorbs:
  assumes "\<bar>t\<bar> < 2 ^ 969"
  shows "float64_add (MaxFloat64 / 2) t = MaxFloat64 / 2"
proof -
  define u :: real where "u = 2 ^ 969"
  have upos: "0 < u" by (simp add: u_def)
  have p: "(2::real) ^ 970 = 2 * u" "(2::real) ^ 1022 = 2 ^ 53 * u" "(2::real) ^ 1023 = 2 ^ 54 * u"
    "(2::real) ^ 971 = 4 * u"
    unfolding u_def by simp_all
  have t: "- u < t" "t < u" using assms unfolding u_def by auto
  have h: "MaxFloat64 / 2 = (2 ^ 53 - 1) * (2 * u)" unfolding MaxFloat64_def p(4) by simp
  have lo: "2 ^ 1022 \<le> MaxFloat64 / 2 + t"
    unfolding h p(2) using t(1) upos by (simp add: algebra_simps)
  have hi: "MaxFloat64 / 2 + t < 2 ^ 1023"
    unfolding h p(3) using t(2) upos by (simp add: algebra_simps)
  have e: "(MaxFloat64 / 2 + t) / 2 ^ 970 = of_int (2 ^ 53 - 1) + t / (2 * u)"
    unfolding h p(1) using upos by (simp add: field_simps)
  have "\<bar>t / (2 * u)\<bar> < 1 / 2" using t upos by (simp add: abs_less_iff field_simps)
  then have r: "round_half_even (of_int (2 ^ 53 - 1) + t / (2 * u)) = 2 ^ 53 - 1"
    by (rule round_half_even_near)
  have c: "MaxFloat64 / 2 = of_int (2 ^ 53 - 1) * 2 ^ 970"
    by (simp add: MaxFloat64_def)
  have "float64_round (MaxFloat64 / 2 + t) = of_int (2 ^ 53 - 1) * 2 ^ 970"
    by (simp only: float64_round_binade [OF lo hi] e r)
  then show ?thesis by (simp only: float64_add_def c [symmetric])
qed

lemma penalty_absorbs_int64:
  assumes "- (2 ^ 63) \<le> ns" and "ns < 2 ^ 63"
  shows "float64_add (MaxFloat64 / 2) (real_of_int ns) = MaxFloat64 / 2"
proof -
  have "\<bar>real_of_int ns\<bar> \<le> 2 ^ 63"
  proof -
    have "\<bar>ns\<bar> \<le> 2 ^ 63" using assms by simp
    then have "real_of_int \<bar>ns\<bar> \<le> real_of_int (2 ^ 63)" by (simp only: of_int_le_iff)
    then show ?thesis by simp
  qed
  moreover have "(2::real) ^ 63 < 2 ^ 969" by (rule power_strict_increasing) simp_all
  ultimately show ?thesis by (intro penalty_absorbs) simp
qed

text \<open>
  Claim C5 says that the cost recorded for a failed benchmark is exactly
  \<^verbatim>\<open>math.MaxFloat64/2\<close> plus the measured duration. The code at a failing benchmark, in
  either phase: the loop body completes normally, and the cost appended to the
  surrogate's observations and compared against the best cost is \<^verbatim>\<open>math.MaxFloat64/2\<close>
  itself, whatever the duration \<open>ns\<close> (an \<^verbatim>\<open>int64\<close>) was: the sum absorbs it.
\<close>

theorem failed_benchmark_cost_absorbs_duration:
  assumes "- (2 ^ 63) \<le> ns" and "ns < 2 ^ 63"
  shows
  "(safeRandomParams T (rng st) hypers = Inr (params, r) \<and>
    benchmarkFunc params (world st) = ((True, ns), w) \<longrightarrow>
      (\<exists>st'. sample_step config T benchmarkFunc hypers i st = Inr st' \<and>
             Y (gp st') = Y (gp st) @ [MaxFloat64 / 2] \<and>
             bestTime st' = min (bestTime st) (MaxFloat64 / 2))) \<and>
   (candidates_loop config T hypers (nat (NumCandidates config))
      ([], Fin MaxFloat64, st\<lparr>acqParams := (acqParams st)\<lparr>BestSoFar := bestTime st\<rparr>\<rparr>) =
      Inr (nextParams, ba, st1) \<and>
    benchmarkFunc nextParams (world st) = ((True, ns), w) \<longrightarrow>
      (\<exists>st'. optimize_step config T benchmarkFunc hypers i st = Inr st' \<and>
             Y (gp st') = Y (gp st) @ [MaxFloat64 / 2] \<and>
             bestTime st' = min (bestTime st) (MaxFloat64 / 2)))"
proof (intro conjI impI)
  assume a: "safeRandomParams T (rng st) hypers = Inr (params, r) \<and>
    benchmarkFunc params (world st) = ((True, ns), w)"
  obtain t st2 where b: "timed_benchmark benchmarkFunc params (st\<lparr>rng := r\<rparr>) = (t, st2)"
    by (cases "timed_benchmark benchmarkFunc params (st\<lparr>rng := r\<rparr>)")
  have "t = float64_add (MaxFloat64 / 2) (real_of_int ns)"
    using a b timed_benchmark_cost(1) [of benchmarkFunc params "st\<lparr>rng := r\<rparr>" True ns w] by simp
  then have t: "t = MaxFloat64 / 2" by (simp only: penalty_absorbs_int64 [OF assms])
  have s: "sample_step config T benchmarkFunc hypers i st =
      Inr (record_result config ''InitialSampling'' (i + 1) (InitialSamples config) params t st2)"
    using a b by (simp add: sample_step_def)
  have f: "gp st2 = gp st" "bestTime st2 = bestTime st"
    using timed_benchmark_frame [OF b] by simp_all
  show "\<exists>st'. sample_step config T benchmarkFunc hypers i st = Inr st' \<and>
             Y (gp st') = Y (gp st) @ [MaxFloat64 / 2] \<and>
             bestTime st' = min (bestTime st) (MaxFloat64 / 2)"
    unfolding s using f t by (simp add: record_result_facts)
next
  assume a: "candidates_loop config T hypers (nat (NumCandidates config))
      ([], Fin MaxFloat64, st\<lparr>acqParams := (acqParams st)\<lparr>BestSoFar := bestTime st\<rparr>\<rparr>) =
      Inr (nextParams, ba, st1) \<and>
    benchmarkFunc nextParams (world st) = ((True, ns), w)"
  then have c: "candidates_loop config T hypers (nat (NumCandidates config))
      ([], Fin MaxFloat64, st\<lparr>acqParams := (acqParams st)\<lparr>BestSoFar := bestTime st\<rparr>\<rparr>) =
      Inr (nextParams, ba, st1)" by simp
  have g: "gp st1 = gp st" "bestTime st1 = bestTime st" "world st1 = world st"
    using candidates_loop_frame [OF c] by simp_all
  obtain t st2 where b: "timed_benchmark benchmarkFunc nextParams st1 = (t, st2)"
    by (cases "timed_benchmark benchmarkFunc nextParams st1")
  have "t = float64_add (MaxFloat64 / 2) (real_of_int ns)"
    using a b g timed_benchmark_cost(1) [of benchmarkFunc nextParams st1 True ns w] by simp
  then have t: "t = MaxFloat64 / 2" by (simp only: penalty_absorbs_int64 [OF assms])
  have s: "optimize_step config T benchmarkFunc hypers i st =
      Inr (record_result config ''Optimization'' (i + 1) (Iterations config) nextParams t st2)"
    using c b by (simp add: optimize_step_def)
  have f: "gp st2 = gp st" "bestTime st2 = bestTime st"
    using timed_benchmark_frame [OF b] g by simp_all
  show "\<exists>st'. optimize_step config T benchmarkFunc hypers i st = Inr st' \<and>
             Y (gp st') = Y (gp st) @ [MaxFloat64 / 2] \<and>
             bestTime st' = min (bestTime st) (MaxFloat64 / 2)"
    unfolding s using f t by (simp add: record_result_facts)
qed

theorem failed_benchmark_cost_absorbs_duration_witness:
  "(\<exists>st'. sample_step (ucb_config 1 1 1) (Basic TInt) failing_bench [int_range 1 100] 0
            (initial_state (ucb_config 1 1 1) (Basic TInt) counter_rand 0 [int_range 1 100]) = Inr st' \<and>
          Y (gp st') = [MaxFloat64 / 2] \<and> bestTime st' = MaxFloat64 / 2) \<and>
   (\<exists>st'. optimize_step (ucb_config 1 1 1) (Basic TInt) failing_bench [int_range 1 100] 0
            (initial_state (ucb_config 1 1 1) (Basic TInt) counter_rand 0 [int_range 1 100]) = Inr st' \<and>
          Y (gp st') = [MaxFloat64 / 2] \<and> bestTime st' = MaxFloat64 / 2)"
proof -
  let ?c = "ucb_config 1 1 1"
  let ?st = "initial_state ?c (Basic TInt) counter_rand (0::nat) [int_range 1 100]"
  have m: "(- 2::real) < MaxFloat64" by (rule below_MaxFloat64) simp
  have mn: "min MaxFloat64 (MaxFloat64 / 2) = MaxFloat64 / 2" using MaxFloat64_pos by simp
  have n: "- (2 ^ 63) \<le> (7::int)" "(7::int) < 2 ^ 63" by simp_all
  obtain params r where d: "safeRandomParams (Basic TInt) (rng ?st) [int_range 1 100] = Inr (params, r)"
    by (simp add: step_defs instance_defs)
  obtain w where f1: "failing_bench params (world ?st) = ((True, 7), w)"
    by (simp add: failing_bench_def)
  obtain nextParams ba st1 where c: "candidates_loop ?c (Basic TInt) [int_range 1 100] (nat (NumCandidates ?c))
      ([], Fin MaxFloat64, ?st\<lparr>acqParams := (acqParams ?st)\<lparr>BestSoFar := bestTime ?st\<rparr>\<rparr>) =
      Inr (nextParams, ba, st1)"
    using m by (simp add: step_defs instance_defs)
  have f2: "failing_bench nextParams (world ?st) = ((True, 7), w)"
    using f1 by (simp add: failing_bench_def)
  have y: "Y (gp ?st) = []" "bestTime ?st = MaxFloat64"
    by (simp_all add: initial_state_def newGaussianProcess_def)
  from failed_benchmark_cost_absorbs_duration [OF n, of "Basic TInt" ?st "[int_range 1 100]" params r
      failing_bench w ?c 0 nextParams ba st1] d f1 c f2
  show ?thesis by (simp only: y mn append_Nil simp_thms)
qed

lemma safeRandomParams_unhandled:
  "unhandled T \<Longrightarrow>
   safeRandomParams T r hypers = Inr (replicate (length hypers) (zero_value T), r)"
  by (induction hypers) (simp_all add: draw_param_def unhandled_def)

lemma candidate_step_unhandled:
  assumes "unhandled T"
    and "candidate_step config T hypers (np, ba, st) = Inr (np', ba', st')"
    and "np = [] \<or> np = replicate (length hypers) (zero_value T)"
  shows "np' = [] \<or> np' = replicate (length hypers) (zero_value T)"
  using assms(2,3) safeRandomParams_unhandled [OF assms(1), of "rng st" hypers]
  by (auto simp: candidate_step_def Let_def split: sum.splits prod.splits if_splits)

lemma candidates_loop_unhandled:
  assumes "unhandled T"
    and "candidates_loop config T hypers j ([], ba, st) = Inr (np', ba', st')"
  shows "np' = [] \<or> np' = replicate (length hypers) (zero_value T)"
  using assms(2)
proof (induction j arbitrary: np' ba' st')
  case 0
  then show ?case by simp
next
  case (Suc j)
  from Suc.prems obtain np1 ba1 st1 where
    l: "candidates_loop config T hypers j ([], ba, st) = Inr (np1, ba1, st1)"
    and s: "candidate_step config T hypers (np1, ba1, st1) = Inr (np', ba', st')"
    by (auto split: sum.splits)
  show ?case using candidate_step_unhandled [OF assms(1) s Suc.IH [OF l]] .
qed

text \<open>
  Claim C10. For an element type that the type switch does not list (any accepted type
  other than \<^verbatim>\<open>int\<close>, \<^verbatim>\<open>int32\<close>, \<^verbatim>\<open>int64\<close>, \<^verbatim>\<open>float32\<close>, \<^verbatim>\<open>float64\<close>)
  \<^verbatim>\<open>safeRandomParams\<close> draws nothing: every parameter is the zero value, whatever
  the ranges, and the generator is untouched. So phase 1 always evaluates the zero
  vector, and phase 2 the zero vector or, when no candidate was selected, the empty one.
\<close>

theorem unhandled_type_draws_zero:
  assumes "T \<noteq> Basic TInt" and "T \<noteq> Basic TInt32" and "T \<noteq> Basic TInt64"
    and "T \<noteq> Basic TFloat32" and "T \<noteq> Basic TFloat64"
  shows "safeRandomParams T r hypers = Inr (replicate (length hypers) (zero_value T), r) \<and>
    (\<forall>st'. sample_step config T benchmarkFunc hypers i st = Inr st' \<longrightarrow>
       calls st' = calls st @ [replicate (length hypers) (zero_value T)]) \<and>
    (\<forall>st'. optimize_step config T benchmarkFunc hypers i st = Inr st' \<longrightarrow>
       calls st' = calls st @ [replicate (length hypers) (zero_value T)] \<or>
       calls st' = calls st @ [[]])"
proof (intro conjI allI impI)
  have u: "unhandled T" using assms by (simp add: unhandled_def)
  show "safeRandomParams T r hypers = Inr (replicate (length hypers) (zero_value T), r)"
    using u by (rule safeRandomParams_unhandled)
  {
    fix st'
    assume "sample_step config T benchmarkFunc hypers i st = Inr st'"
    then obtain params r' t st1 where
      d: "safeRandomParams T (rng st) hypers = Inr (params, r')"
      and b: "timed_benchmark benchmarkFunc params (st\<lparr>rng := r'\<rparr>) = (t, st1)"
      and r: "st' = record_result config ''InitialSampling'' (i + 1) (InitialSamples config) params t st1"
      by (rule sample_step_Inr)
    have "params = replicate (length hypers) (zero_value T)"
      using d safeRandomParams_unhandled [OF u, of "rng st" hypers] by simp
    then show "calls st' = calls st @ [replicate (length hypers) (zero_value T)]"
      unfolding r using timed_benchmark_frame(7) [OF b] by (simp add: record_result_facts)
  }
  {
    fix st'
    assume "optimize_step config T benchmarkFunc hypers i st = Inr st'"
    then obtain nextParams ba st1 t st2 where
      c: "candidates_loop config T hypers (nat (NumCandidates config))
         ([], Fin MaxFloat64, st\<lparr>acqParams := (acqParams st)\<lparr>BestSoFar := bestTime st\<rparr>\<rparr>) =
       Inr (nextParams, ba, st1)"
      and b: "timed_benchmark benchmarkFunc nextParams st1 = (t, st2)"
      and r: "st' = record_result config ''Optimization'' (i + 1) (Iterations config) nextParams t st2"
      by (rule optimize_step_Inr)
    have n: "nextParams = [] \<or> nextParams = replicate (length hypers) (zero_value T)"
      using candidates_loop_unhandled [OF u c] .
    have "calls st' = calls st @ [nextParams]"
      unfolding r using timed_benchmark_frame(7) [OF b] candidates_loop_frame [OF c]
      by (simp add: record_result_facts)
    then show "calls st' = calls st @ [replicate (length hypers) (zero_value T)] \<or>
       calls st' = calls st @ [[]]" using n by auto
  }
qed

theorem unhandled_type_draws_zero_witness:
  "safeRandomParams (Basic TInt8) counter_rand [int_range 5 10] = Inr ([IntV 0], counter_rand) \<and>
   safeRandomParams (Defined TInt64) counter_rand [int_range 5 10] = Inr ([IntV 0], counter_rand) \<and>
   (\<exists>st'. sample_step (ucb_config 1 1 1) (Basic TUint64) steady_bench [int_range 5 10, int_range 7 8] 0
            (initial_state (ucb_config 1 1 1) (Basic TUint64) counter_rand 0
               [int_range 5 10, int_range 7 8]) = Inr st' \<and>
          calls st' = [[IntV 0, IntV 0]]) \<and>
   (\<exists>st'. optimize_step (ucb_config 1 1 1) (Basic TUint64) steady_bench [int_range 5 10, int_range 7 8] 0
            (initial_state (ucb_config 1 1 1) (Basic TUint64) counter_rand 0
               [int_range 5 10, int_range 7 8]) = Inr st' \<and>
          calls st' = [[IntV 0, IntV 0]])"
proof -
  let ?c = "ucb_config 1 1 1"
  let ?h = "[int_range 5 10, int_range 7 8]"
  let ?st = "initial_state ?c (Basic TUint64) counter_rand (0::nat) ?h"
  have m: "(- 2::real) < MaxFloat64" by (rule below_MaxFloat64) simp
  have a: "safeRandomParams (Basic TInt8) counter_rand [int_range 5 10] =
      Inr (replicate (length [int_range 5 10]) (zero_value (Basic TInt8)), counter_rand)"
    by (rule conjunct1 [OF unhandled_type_draws_zero]) simp_all
  have b: "safeRandomParams (Defined TInt64) counter_rand [int_range 5 10] =
      Inr (replicate (length [int_range 5 10]) (zero_value (Defined TInt64)), counter_rand)"
    by (rule conjunct1 [OF unhandled_type_draws_zero]) simp_all
  obtain st1 where s1: "sample_step ?c (Basic TUint64) steady_bench ?h 0 ?st = Inr st1"
    by (simp add: step_defs instance_defs)
  have c1: "calls st1 = calls ?st @ [replicate (length ?h) (zero_value (Basic TUint64))]"
    using unhandled_type_draws_zero [of "Basic TUint64" counter_rand ?h ?c steady_bench 0 ?st] s1
    by simp
  obtain st2 where s2: "optimize_step ?c (Basic TUint64) steady_bench ?h 0 ?st = Inr st2"
    "calls st2 = [[IntV 0, IntV 0]]"
    using m by (simp add: step_defs instance_defs)
  have z: "calls ?st = []" by (simp add: initial_state_def)
  show ?thesis unfolding a b using s1 c1 s2 z
    by (simp add: zero_value_def is_float_def numeral_2_eq_2)
qed

text \<open>
  Claim C9, as amended. With a nil \<^verbatim>\<open>RandomState\<close>, \<^verbatim>\<open>ThompsonSampling\<close> stops at once
  with Go's run-time nil pointer dereference: it substitutes no generator, and it makes
  no check that would raise an error of its own.
\<close>

theorem ThompsonSampling_nil_RandomState:
  "RandomState params = None \<Longrightarrow>
   ThompsonSampling mean variance params = Inl NilPointerDereference"
  by (simp add: ThompsonSampling_def)

theorem ThompsonSampling_nil_RandomState_witness:
  "ThompsonSampling 3 4 nil_params = Inl NilPointerDereference"
  using ThompsonSampling_nil_RandomState [of nil_params 3 4] by (simp add: nil_params_def)

text \<open>
  Counterexample to claim C9 as stated: the panic of \<^verbatim>\<open>ThompsonSampling\<close> on a nil
  \<^verbatim>\<open>RandomState\<close> is no explicit error with a message.
\<close>

theorem ThompsonSampling_no_explicit_error:
  "\<not> (\<exists>msg. ThompsonSampling 0 1 nil_params = Inl (Panic msg))"
  by (simp add: ThompsonSampling_def nil_params_def)

lemma rand_contract_src: "rand_contract (r\<lparr>src := s\<rparr>) = rand_contract r"
  by (simp add: rand_contract_def)

text \<open>
  With exact arithmetic, a draw for a float type is \<open>min + u * (max - min)\<close> with
  \<open>0 \<le> u < 1\<close>, so it lies in \<open>[Min, Max)\<close>.
\<close>

lemma float_draw_below_Max:
  assumes "rand_contract r"
    and "T = Basic TFloat32 \<or> T = Basic TFloat64"
    and "\<forall>h\<in>set hypers. float64_of (Min_r h) < float64_of (Max_r h)"
  shows "\<exists>ps r'. safeRandomParams T r hypers = Inr (ps, r') \<and> length ps = length hypers \<and>
           (\<forall>i<length hypers. \<exists>v. ps ! i = FloatV v \<and>
               float64_of (Min_r (hypers ! i)) \<le> v \<and> v < float64_of (Max_r (hypers ! i)))"
  using assms(1,3)
proof (induction hypers arbitrary: r)
  case Nil
  then show ?case by simp
next
  case (Cons h hypers)
  obtain u s where g: "gen_Float64 r (src r) = (u, s)" by (cases "gen_Float64 r (src r)")
  have u: "0 \<le> u" "u < 1"
    using Cons.prems(1) g unfolding rand_contract_def by (metis fst_conv)+
  let ?lo = "float64_of (Min_r h)" and ?hi = "float64_of (Max_r h)"
  have lt: "?lo < ?hi" using Cons.prems(2) by simp
  have d: "draw_param T r h = Inr (FloatV (?lo + u * (?hi - ?lo)), r\<lparr>src := s\<rparr>)"
    using assms(2) g by (auto simp: draw_param_def Float64_def T_of_float64_def Let_def)
  have lo: "?lo \<le> ?lo + u * (?hi - ?lo)" using u(1) lt by simp
  have "u * (?hi - ?lo) < 1 * (?hi - ?lo)" using u(2) lt by (intro mult_strict_right_mono) simp_all
  then have hi: "?lo + u * (?hi - ?lo) < ?hi" by simp
  have "rand_contract (r\<lparr>src := s\<rparr>)" using Cons.prems(1) by (simp add: rand_contract_src)
  from Cons.IH [OF this] Cons.prems(2) obtain ps r' where
    ps: "safeRandomParams T (r\<lparr>src := s\<rparr>) hypers = Inr (ps, r')" "length ps = length hypers"
    "\<forall>i<length hypers. \<exists>v. ps ! i = FloatV v \<and>
               float64_of (Min_r (hypers ! i)) \<le> v \<and> v < float64_of (Max_r (hypers ! i))"
    by auto
  have "\<forall>i<length (h # hypers). \<exists>v. (FloatV (?lo + u * (?hi - ?lo)) # ps) ! i = FloatV v \<and>
               float64_of (Min_r ((h # hypers) ! i)) \<le> v \<and> v < float64_of (Max_r ((h # hypers) ! i))"
    using ps(3) lo hi by (auto simp: nth_Cons split: nat.splits)
  then show ?case using d ps(1,2) by simp
qed

text \<open>
  Claim C4 says that every value of the inclusive range \<open>[Min, Max]\<close>, \<open>Max\<close> included,
  can be drawn. The code at two inputs: for the element type \<^verbatim>\<open>int8\<close> and the range
  \<open>[5, 10]\<close> every draw is 0, outside the range; for \<^verbatim>\<open>float64\<close> and the range
  \<open>[0, 1]\<close> every draw is below \<open>Max = 1\<close>, whatever the generator returns.
\<close>

theorem draws_miss_inclusive_range:
  "safeRandomParams (Basic TInt8) r [int_range 5 10] = Inr ([IntV 0], r) \<and>
   (rand_contract r \<longrightarrow>
      (\<exists>v r'. safeRandomParams (Basic TFloat64) r [float_range 0 1] = Inr ([FloatV v], r') \<and>
              0 \<le> v \<and> v < 1))"
proof (intro conjI impI)
  show "safeRandomParams (Basic TInt8) r [int_range 5 10] = Inr ([IntV 0], r)"
    using safeRandomParams_unhandled [of "Basic TInt8" r "[int_range 5 10]"]
    by (simp add: unhandled_def zero_value_def is_float_def del: safeRandomParams.simps)
next
  assume c: "rand_contract r"
  have h: "\<forall>h\<in>set [float_range 0 1]. float64_of (Min_r h) < float64_of (Max_r h)"
    by (simp add: float_range_def)
  from float_draw_below_Max [OF c _ h, of "Basic TFloat64"] obtain ps r' where
    ps: "safeRandomParams (Basic TFloat64) r [float_range 0 1] = Inr (ps, r')"
    "length ps = length [float_range 0 1]"
    "\<forall>i<length [float_range 0 1]. \<exists>v. ps ! i = FloatV v \<and>
               float64_of (Min_r ([float_range 0 1] ! i)) \<le> v \<and> v < float64_of (Max_r ([float_range 0 1] ! i))"
    by auto
  from ps(3) obtain v where v: "ps ! 0 = FloatV v" "0 \<le> v" "v < 1"
    by (auto simp: float_range_def)
  have "ps = [FloatV v]" using ps(2) v(1) by (cases ps) auto
  then show "\<exists>v r'. safeRandomParams (Basic TFloat64) r [float_range 0 1] = Inr ([FloatV v], r') \<and>
              0 \<le> v \<and> v < 1" using ps(1) v by auto
qed

theorem draws_miss_inclusive_range_witness:
  "safeRandomParams (Basic TInt8) counter_rand [int_range 5 10] = Inr ([IntV 0], counter_rand) \<and>
   (\<exists>v r'. safeRandomParams (Basic TFloat64) counter_rand [float_range 0 1] = Inr ([FloatV v], r') \<and>
           0 \<le> v \<and> v < 1)"
proof -
  have c: "rand_contract counter_rand" by (simp add: rand_contract_def counter_rand_def)
  show ?thesis using draws_miss_inclusive_range [of counter_rand] c by blast
qed

lemma score_less_irrefl: "\<not> score_less a a"
  by (cases a) simp_all

lemma score_less_trans: "score_less a b \<Longrightarrow> score_less b c \<Longrightarrow> score_less a c"
  by (cases a; cases b; cases c) simp_all

lemma selected_Nil: "selected [] [] (Fin MaxFloat64)"
  by (simp add: selected_def)

lemma selected_better:
  assumes "selected cands np ba" and "score_less s ba"
  shows "selected (cands @ [(c, s)]) c s"
proof -
  have sm: "score_less s (Fin MaxFloat64)"
    using assms score_less_trans unfolding selected_def by (auto split: if_splits)
  have low: "\<forall>j<length cands. \<not> score_less (snd (cands ! j)) s"
  proof (intro allI impI notI)
    fix j assume j: "j < length cands" and l: "score_less (snd (cands ! j)) s"
    have l2: "score_less (snd (cands ! j)) ba" using l assms(2) by (rule score_less_trans)
    have l3: "score_less (snd (cands ! j)) (Fin MaxFloat64)" using l sm by (rule score_less_trans)
    have "\<exists>c\<in>set cands. score_less (snd c) (Fin MaxFloat64)" using j l3 nth_mem by blast
    then show False using assms(1) j l2 unfolding selected_def by auto
  qed
  have ne: "\<forall>j<length cands. snd (cands ! j) \<noteq> s"
  proof (intro allI impI notI)
    fix j assume j: "j < length cands" and e: "snd (cands ! j) = s"
    have "\<exists>c\<in>set cands. score_less (snd c) (Fin MaxFloat64)" using j e sm nth_mem by blast
    then show False using assms j e unfolding selected_def by auto
  qed
  have "\<forall>j<length (cands @ [(c, s)]). \<not> score_less (snd ((cands @ [(c, s)]) ! j)) s"
    using low score_less_irrefl by (auto simp: nth_append less_Suc_eq)
  moreover have "\<forall>j<length cands. snd ((cands @ [(c, s)]) ! j) \<noteq> s"
    using ne by (simp add: nth_append)
  ultimately show ?thesis
    unfolding selected_def using sm
    by (auto intro!: exI [of _ "length cands"])
qed

lemma selected_not_better:
  assumes "selected cands np ba" and "\<not> score_less s ba"
  shows "selected (cands @ [(c, s)]) np ba"
proof (cases "\<exists>c\<in>set cands. score_less (snd c) (Fin MaxFloat64)")
  case True
  with assms(1) obtain i where i: "i < length cands" "np = fst (cands ! i)" "ba = snd (cands ! i)"
    "score_less ba (Fin MaxFloat64)" "\<forall>j<length cands. \<not> score_less (snd (cands ! j)) ba"
    "\<forall>j<i. snd (cands ! j) \<noteq> ba"
    unfolding selected_def by auto
  have 1: "\<forall>j<length (cands @ [(c, s)]). \<not> score_less (snd ((cands @ [(c, s)]) ! j)) ba"
    using i(5) assms(2) by (auto simp: nth_append less_Suc_eq)
  have 2: "\<forall>j<i. snd ((cands @ [(c, s)]) ! j) \<noteq> ba"
    using i(1,6) by (simp add: nth_append)
  have 3: "np = fst ((cands @ [(c, s)]) ! i)" "ba = snd ((cands @ [(c, s)]) ! i)"
    using i(1,2,3) by (simp_all add: nth_append)
  have 4: "i < length (cands @ [(c, s)])" using i(1) by simp
  have "\<exists>c\<in>set (cands @ [(c, s)]). score_less (snd c) (Fin MaxFloat64)" using True by auto
  then show ?thesis unfolding selected_def using 1 2 3 4 i(4) by auto
next
  case False
  with assms(1) have n: "np = []" "ba = Fin MaxFloat64" unfolding selected_def by auto
  have "\<not> (\<exists>c\<in>set (cands @ [(c, s)]). score_less (snd c) (Fin MaxFloat64))"
    using False assms(2) n by auto
  then show ?thesis unfolding selected_def using n by simp
qed

lemma candidate_step_Inr:
  assumes "candidate_step config T hypers (np0, ba0, st0) = Inr (np, ba, st1)"
  obtains c r mean variance a rs where
    "safeRandomParams T (rng st0) hypers = Inr (c, r)"
    "Predict (gp st0) (paramsToFloat64s c) = Inr (mean, variance)"
    "AcquisitionFunc config mean variance (acqParams st0) = Inr (a, rs)"
    "st1 = st0\<lparr>rng := r, acqParams := (acqParams st0)\<lparr>RandomState := rs\<rparr>\<rparr>"
    "np = (if score_less a ba0 then c else np0)" "ba = (if score_less a ba0 then a else ba0)"
proof -
  from assms obtain c r where d: "safeRandomParams T (rng st0) hypers = Inr (c, r)"
    by (cases "safeRandomParams T (rng st0) hypers") (auto simp: candidate_step_def)
  from assms d obtain mean variance where
    p: "Predict (gp st0) (paramsToFloat64s c) = Inr (mean, variance)"
    by (cases "Predict (gp st0) (paramsToFloat64s c)") (auto simp: candidate_step_def)
  from assms d p obtain a rs where
    q: "AcquisitionFunc config mean variance (acqParams st0) = Inr (a, rs)"
    by (cases "AcquisitionFunc config mean variance (acqParams st0)") (auto simp: candidate_step_def)
  from assms d p q have
    "st1 = st0\<lparr>rng := r, acqParams := (acqParams st0)\<lparr>RandomState := rs\<rparr>\<rparr>"
    "np = (if score_less a ba0 then c else np0)" "ba = (if score_less a ba0 then a else ba0)"
    by (simp_all add: candidate_step_def Let_def split: if_splits)
  with d p q show ?thesis by (rule that)
qed

lemma candidates_loop_scored:
  assumes "candidates_loop config T hypers j ([], Fin MaxFloat64, st) = Inr (np, ba, st1)"
  shows "\<exists>cands. scored_candidates config T hypers j st = Inr (cands, st1) \<and>
           length cands = j \<and> selected cands np ba"
  using assms
proof (induction j arbitrary: np ba st1)
  case 0
  then show ?case using selected_Nil by auto
next
  case (Suc j)
  from Suc.prems obtain np0 ba0 st0 where
    l: "candidates_loop config T hypers j ([], Fin MaxFloat64, st) = Inr (np0, ba0, st0)"
    and s: "candidate_step config T hypers (np0, ba0, st0) = Inr (np, ba, st1)"
    by (auto split: sum.splits)
  from Suc.IH [OF l] obtain cands where
    c: "scored_candidates config T hypers j st = Inr (cands, st0)" "length cands = j"
       "selected cands np0 ba0" by blast
  from s obtain c r mean variance a rs where
    d: "safeRandomParams T (rng st0) hypers = Inr (c, r)"
    and p: "Predict (gp st0) (paramsToFloat64s c) = Inr (mean, variance)"
    and q: "AcquisitionFunc config mean variance (acqParams st0) = Inr (a, rs)"
    and st1: "st1 = st0\<lparr>rng := r, acqParams := (acqParams st0)\<lparr>RandomState := rs\<rparr>\<rparr>"
    and sel: "np = (if score_less a ba0 then c else np0)" "ba = (if score_less a ba0 then a else ba0)"
    by (rule candidate_step_Inr)
  have sc: "scored_candidates config T hypers (Suc j) st = Inr (cands @ [(c, a)], st1)"
    using c(1) d p q st1 by simp
  have "selected (cands @ [(c, a)]) np ba"
    using selected_better [OF c(3)] selected_not_better [OF c(3)] sel by auto
  then show ?case using sc c(2) by simp
qed






lemma no_candidates_call:
  "\<exists>st'. optimize_step (ucb_config 1 0 0) (Basic TInt) steady_bench [int_range 1 100] 0
             (initial_state (ucb_config 1 0 0) (Basic TInt) counter_rand 0 [int_range 1 100]) = Inr st' \<and>
         calls st' = [[]]"
  by (simp add: step_defs instance_defs)

text \<open>
  When no candidate of an iteration scores below \<^verbatim>\<open>math.MaxFloat64\<close>, for instance
  because every score is NaN, \<^verbatim>\<open>nextParams\<close> is still nil after the inner loop and
  the benchmark is invoked with no arguments. \<^verbatim>\<open>UCB\<close> yields NaN as soon as the
  predicted variance is negative: the instance below is such a state, and the run after
  it reaches one from the default acquisition function in two samples.
\<close>

lemma no_score_below_max_evaluates_nil:
  assumes "optimize_step config T benchmarkFunc hypers i st = Inr st'"
    and "scored_candidates config T hypers (nat (NumCandidates config))
       (st\<lparr>acqParams := (acqParams st)\<lparr>BestSoFar := bestTime st\<rparr>\<rparr>) = Inr (cands, st1)"
    and "\<forall>c\<in>set cands. \<not> score_less (snd c) (Fin MaxFloat64)"
  shows "calls st' = calls st @ [[]]"
proof -
  from assms(1) obtain nextParams ba st1' t st2 where
    c: "candidates_loop config T hypers (nat (NumCandidates config))
       ([], Fin MaxFloat64, st\<lparr>acqParams := (acqParams st)\<lparr>BestSoFar := bestTime st\<rparr>\<rparr>) =
     Inr (nextParams, ba, st1')"
    and b: "timed_benchmark benchmarkFunc nextParams st1' = (t, st2)"
    and r: "st' = record_result config ''Optimization'' (i + 1) (Iterations config) nextParams t st2"
    by (rule optimize_step_Inr)
  from candidates_loop_scored [OF c] assms(2) have "selected cands nextParams ba" by auto
  then have n: "nextParams = []" using assms(3) unfolding selected_def by auto
  show ?thesis
    unfolding r using timed_benchmark_frame(7) [OF b] candidates_loop_frame [OF c] n
    by (simp add: record_result_facts)
qed

lemma no_score_below_max_evaluates_nil_instance:
  "\<exists>st'. optimize_step (ucb_config 1 0 2) (Basic TInt) steady_bench [int_range 0 0] 0
           ((initial_state (ucb_config 1 0 2) (Basic TInt) counter_rand 0 [int_range 0 0])
              \<lparr>gp := gp_twice\<rparr>) = Inr st' \<and>
         calls st' = [[]]"
proof -
  let ?c = "ucb_config 1 0 2"
  let ?h = "[int_range 0 0]"
  let ?st = "(initial_state ?c (Basic TInt) counter_rand (0::nat) ?h)\<lparr>gp := gp_twice\<rparr>"
  obtain st1 where sc: "scored_candidates ?c (Basic TInt) ?h (nat (NumCandidates ?c))
       (?st\<lparr>acqParams := (acqParams ?st)\<lparr>BestSoFar := bestTime ?st\<rparr>\<rparr>) =
       Inr ([([IntV 0], NaN), ([IntV 0], NaN)], st1)"
    by (simp add: step_defs instance_defs gp_twice_def numeral_2_eq_2)
  obtain st' where o: "optimize_step ?c (Basic TInt) steady_bench ?h 0 ?st = Inr st'"
    by (simp add: step_defs instance_defs gp_twice_def numeral_2_eq_2)
  have "calls st' = calls ?st @ [[]]"
    using no_score_below_max_evaluates_nil [OF o sc] by simp
  then show ?thesis using o by (simp add: initial_state_def)
qed

lemma ucb_negative_variance_run:
  "\<exists>st. run (ucb_config 1 2 2) (Basic TInt) steady_bench counter_rand 0 [int_range 0 0] = Inr st \<and>
        calls st = [[IntV 0], [IntV 0], []] \<and> X (gp st) = [[0], [0], []]"
proof -
  have m: "(100::real) < MaxFloat64" by (rule below_MaxFloat64) simp
  show ?thesis
    using m by (simp add: run_def step_defs instance_defs numeral_2_eq_2)
qed

end
